theory Spec2Isabelle
  imports Complex_Main
begin

section \<open>Numbers of the source language\<close>

text \<open>
  Every number of \<^verbatim>\<open>src/App.tsx\<close> is a JavaScript \<^verbatim>\<open>number\<close>, an IEEE 754
  double. A finite one is modelled by the real it denotes; the three special values are
  kept apart, because the program meets them: \<^verbatim>\<open>video.duration\<close> is \<^verbatim>\<open>NaN\<close>
  before the metadata is known, and a division by zero yields an infinity or
  \<^verbatim>\<open>NaN\<close> rather than an exception. The sign of zero is not modelled.
\<close>

datatype jsnum = Fin real | PInf | NInf | NaN

text \<open>
  Rounding to the nearest double, ties to even. \<open>rhe\<close> rounds a real to the nearest
  integer, ties to the even one. \<open>expo\<close> is the binary exponent of a positive real, kept
  within the exponents of a double (\<open>- 1022\<close> for the subnormals, at most 1023), found by
  searching downwards from 1023. \<open>round_pos\<close> rounds a positive real to 53 significant
  bits at that exponent, and \<open>round_double\<close> adds the sign, and the overflow to an infinity
  when the rounded magnitude reaches \<open>2\<^sup>1\<^sup>0\<^sup>2\<^sup>4\<close>.
\<close>

definition rhe :: "real \<Rightarrow> int" where
  "rhe m =
     (let f = \<lfloor>m\<rfloor>
      in if m - of_int f < 1 / 2 then f
         else if 1 / 2 < m - of_int f then f + 1
         else if even f then f else f + 1)"

fun find_expo :: "nat \<Rightarrow> int \<Rightarrow> real \<Rightarrow> int" where
  "find_expo 0 e x = e"
| "find_expo (Suc n) e x = (if 2 powi e \<le> x then e else find_expo n (e - 1) x)"

definition expo :: "real \<Rightarrow> int" where
  "expo x = find_expo 2045 1023 x"

definition round_pos :: "real \<Rightarrow> real" where
  "round_pos x = of_int (rhe (x / 2 powi (expo x - 52))) * 2 powi (expo x - 52)"

definition round_double :: "real \<Rightarrow> jsnum" where
  "round_double x =
     (if x = 0 then Fin 0
      else if 0 < x then (if 2 powi 1024 \<le> round_pos x then PInf else Fin (round_pos x))
      else (if 2 powi 1024 \<le> round_pos (- x) then NInf else Fin (- round_pos (- x))))"

text \<open>The operator \<^verbatim>\<open>/\<close>.\<close>

fun js_div :: "jsnum \<Rightarrow> jsnum \<Rightarrow> jsnum" where
  "js_div NaN _ = NaN"
| "js_div _ NaN = NaN"
| "js_div (Fin a) (Fin b) =
     (if b \<noteq> 0 then round_double (a / b)
      else if a = 0 then NaN
      else if 0 < a then PInf else NInf)"
| "js_div (Fin a) PInf = Fin 0"
| "js_div (Fin a) NInf = Fin 0"
| "js_div PInf (Fin b) = (if 0 \<le> b then PInf else NInf)"
| "js_div NInf (Fin b) = (if 0 \<le> b then NInf else PInf)"
| "js_div PInf PInf = NaN"
| "js_div PInf NInf = NaN"
| "js_div NInf PInf = NaN"
| "js_div NInf NInf = NaN"

text \<open>The operator \<^verbatim>\<open>*\<close>.\<close>

fun js_mul :: "jsnum \<Rightarrow> jsnum \<Rightarrow> jsnum" where
  "js_mul NaN _ = NaN"
| "js_mul _ NaN = NaN"
| "js_mul (Fin a) (Fin b) = round_double (a * b)"
| "js_mul (Fin a) PInf = (if a = 0 then NaN else if 0 < a then PInf else NInf)"
| "js_mul (Fin a) NInf = (if a = 0 then NaN else if 0 < a then NInf else PInf)"
| "js_mul PInf (Fin b) = (if b = 0 then NaN else if 0 < b then PInf else NInf)"
| "js_mul NInf (Fin b) = (if b = 0 then NaN else if 0 < b then NInf else PInf)"
| "js_mul PInf PInf = PInf"
| "js_mul PInf NInf = NInf"
| "js_mul NInf PInf = NInf"
| "js_mul NInf NInf = PInf"

text \<open>\<^verbatim>\<open>Math.min\<close> of two arguments.\<close>

fun Math_min :: "jsnum \<Rightarrow> jsnum \<Rightarrow> jsnum" where
  "Math_min NaN _ = NaN"
| "Math_min _ NaN = NaN"
| "Math_min (Fin a) (Fin b) = Fin (min a b)"
| "Math_min NInf _ = NInf"
| "Math_min _ NInf = NInf"
| "Math_min PInf y = y"
| "Math_min x PInf = x"

text \<open>The comparison \<^verbatim>\<open>x === 0\<close>: \<^verbatim>\<open>NaN\<close> equals nothing.\<close>

fun is_zero :: "jsnum \<Rightarrow> bool" where
  "is_zero (Fin a) = (a = 0)"
| "is_zero _ = False"

text \<open>Truthiness of a value of type \<^verbatim>\<open>string | null\<close>: the empty string is falsy.\<close>

fun truthy :: "string option \<Rightarrow> bool" where
  "truthy None = False"
| "truthy (Some s) = (s \<noteq> [])"

section \<open>The state of the component\<close>

text \<open>The type \<^verbatim>\<open>Frame\<close> (lines 12 to 15).\<close>

record Frame =
  time :: jsnum
  image_src :: string

text \<open>
  The three DOM nodes the component reaches through its refs. Of the video element the
  model keeps the properties the source reads or writes; \<open>currentTime\<close> holds the value
  last assigned to it.
\<close>

record video_element =
  duration :: jsnum
  currentTime :: jsnum
  paused :: bool
  ended :: bool

record canvas_element =
  has_context :: bool

record timeline_element =
  clientWidth :: nat

text \<open>
  The only values ever stored in the \<^verbatim>\<open>error\<close> state are two message literals
  (lines 47 and 95); they are named here rather than spelt.
\<close>

datatype error_message = FFmpegLoadFailed | TrimFailed

text \<open>The \<^verbatim>\<open>useState\<close> and \<^verbatim>\<open>useRef\<close> cells of \<^verbatim>\<open>VideoPlayer\<close> (lines 18 to 31).\<close>

record app_state =
  videoSrc :: "string option"
  trimmedSrc :: "string option"
  frames :: "Frame list"
  cursorTime :: jsnum
  ffmpegReady :: bool
  processingProgress :: jsnum
  error :: "error_message option"
  trimStart :: jsnum
  trimDuration :: jsnum
  videoRef :: "video_element option"
  canvasRef :: "canvas_element option"
  timelineRef :: "timeline_element option"

definition initial_state :: app_state where
  "initial_state =
     \<lparr> videoSrc = None, trimmedSrc = None, frames = [], cursorTime = Fin 0,
       ffmpegReady = False, processingProgress = Fin 0, error = None,
       trimStart = Fin 0, trimDuration = Fin 5,
       videoRef = None, canvasRef = None, timelineRef = None \<rparr>"

section \<open>Loading a source\<close>

text \<open>
  \<^verbatim>\<open>handleFileChange\<close> (lines 53 to 66). The first argument is what
  \<^verbatim>\<open>URL.createObjectURL\<close> returns for the file, the second is
  \<^verbatim>\<open>e.target.files?.[0]\<close>, absent when the chooser was cancelled.
\<close>

definition handleFileChange :: "('f \<Rightarrow> string) \<Rightarrow> 'f option \<Rightarrow> app_state \<Rightarrow> app_state" where
  "handleFileChange createObjectURL file s =
     (case file of
        None \<Rightarrow> s
      | Some f \<Rightarrow>
          s\<lparr> videoSrc := Some (createObjectURL f),
             trimmedSrc := None,
             frames := [],
             cursorTime := Fin 0,
             trimStart := Fin 0,
             trimDuration := Fin 5,
             error := None,
             processingProgress := Fin 0 \<rparr>)"

section \<open>Sampling the frames\<close>

text \<open>The comparison \<^verbatim>\<open><=\<close>, by which a sequence of times is non-decreasing.\<close>

fun js_le :: "jsnum \<Rightarrow> jsnum \<Rightarrow> bool" where
  "js_le NaN _ = False"
| "js_le _ NaN = False"
| "js_le (Fin a) (Fin b) = (a \<le> b)"
| "js_le NInf _ = True"
| "js_le _ PInf = True"
| "js_le PInf _ = False"
| "js_le _ NInf = False"

text \<open>
  What the video element does with one assignment to \<^verbatim>\<open>currentTime\<close> followed by
  the wait for its \<^verbatim>\<open>seeked\<close> event (lines 114 to 123): the event fires and the
  canvas yields a data URL, or the assignment throws (so the promise executor rejects), or
  the event never fires (the promise has no reject path and stays pending).
\<close>

datatype seek_result = Seeked string | SeekThrows | SeekNever

text \<open>How the promise of an \<^verbatim>\<open>async\<close> function ends.\<close>

datatype settlement = Resolved | Rejected | Pending

text \<open>
  The loop of \<^verbatim>\<open>captureFrames\<close> (lines 112 to 124). The element's behaviour is the
  parameter \<open>seek\<close>, asked with the index and the time of each request. The loop carries
  the video element, the array \<^verbatim>\<open>thumbnails\<close> and the log of the times assigned to
  \<^verbatim>\<open>currentTime\<close>.
\<close>

function capture_loop ::
  "(nat \<Rightarrow> jsnum \<Rightarrow> seek_result) \<Rightarrow> nat \<Rightarrow> jsnum \<Rightarrow> nat \<Rightarrow> video_element \<Rightarrow> Frame list \<Rightarrow> jsnum list
     \<Rightarrow> settlement \<times> video_element \<times> Frame list \<times> jsnum list" where
  "capture_loop seek frameCount interval i video thumbnails seeks =
     (if i \<le> frameCount then
        (let t = js_mul (Fin (real i)) interval in
         case seek i t of
           Seeked img \<Rightarrow>
             capture_loop seek frameCount interval (i + 1) (video\<lparr>currentTime := t\<rparr>)
               (thumbnails @ [\<lparr>time = t, image_src = img\<rparr>]) (seeks @ [t])
         | SeekThrows \<Rightarrow> (Rejected, video, thumbnails, seeks @ [t])
         | SeekNever \<Rightarrow> (Pending, video\<lparr>currentTime := t\<rparr>, thumbnails, seeks @ [t]))
      else (Resolved, video, thumbnails, seeks))"
  by pat_completeness auto
termination
  by (relation "measure (\<lambda>(seek, frameCount, interval, i, video, thumbnails, seeks). Suc frameCount - i)") auto

declare capture_loop.simps [simp del]

text \<open>
  \<^verbatim>\<open>captureFrames\<close> (lines 100 to 126). It returns the new state, how its promise
  ends, and the log of seek requests. \<^verbatim>\<open>setFrames\<close> is reached only after the loop.
\<close>

definition captureFrames ::
  "(nat \<Rightarrow> jsnum \<Rightarrow> seek_result) \<Rightarrow> app_state \<Rightarrow> app_state \<times> settlement \<times> jsnum list" where
  "captureFrames seek s =
     (case videoRef s of
        None \<Rightarrow> (s, Resolved, [])
      | Some video \<Rightarrow>
         (case canvasRef s of
            None \<Rightarrow> (s, Resolved, [])
          | Some canvas \<Rightarrow>
             if \<not> has_context canvas then (s, Resolved, [])
             else
               (let frameCount = 10;
                    interval = js_div (duration video) (Fin (real frameCount))
                in case capture_loop seek frameCount interval 0 video [] [] of
                     (Resolved, video', thumbnails, seeks) \<Rightarrow>
                       (s\<lparr>videoRef := Some video', frames := thumbnails\<rparr>, Resolved, seeks)
                   | (outcome, video', thumbnails, seeks) \<Rightarrow>
                       (s\<lparr>videoRef := Some video'\<rparr>, outcome, seeks))))"

text \<open>
  The listener of \<^verbatim>\<open>loadedmetadata\<close> (lines 155 to 157) calls
  \<^verbatim>\<open>captureFrames()\<close> and drops its promise.
\<close>

definition onLoadedMetadata :: "(nat \<Rightarrow> jsnum \<Rightarrow> seek_result) \<Rightarrow> app_state \<Rightarrow> app_state" where
  "onLoadedMetadata seek s = fst (captureFrames seek s)"

section \<open>The timeline\<close>

text \<open>\<^verbatim>\<open>onTimelineClick\<close> (lines 165 to 167).\<close>

definition onTimelineClick :: "jsnum \<Rightarrow> app_state \<Rightarrow> app_state" where
  "onTimelineClick t s =
     (case videoRef s of
        None \<Rightarrow> s
      | Some video \<Rightarrow> s\<lparr>videoRef := Some (video\<lparr>currentTime := t\<rparr>)\<rparr>)"

text \<open>
  A click on the \<open>k\<close>-th image of the strip (lines 380 to 394): the strip has one image
  per element of \<^verbatim>\<open>frames\<close>, each with the handler
  \<^verbatim>\<open>() => onTimelineClick(frame.time)\<close>.
\<close>

definition click_frame :: "nat \<Rightarrow> app_state \<Rightarrow> app_state" where
  "click_frame k s =
     (if k < length (frames s) then onTimelineClick (time (frames s ! k)) s else s)"

text \<open>\<^verbatim>\<open>getCursorPosition\<close> (lines 169 to 178).\<close>

definition getCursorPosition :: "app_state \<Rightarrow> jsnum" where
  "getCursorPosition s =
     (case videoRef s of
        None \<Rightarrow> Fin 0
      | Some video \<Rightarrow>
         (case timelineRef s of
            None \<Rightarrow> Fin 0
          | Some timeline \<Rightarrow>
             if is_zero (duration video) then Fin 0
             else
               (let ratio = js_div (cursorTime s) (duration video);
                    width = Fin (real (clientWidth timeline))
                in Math_min (js_mul ratio width) width)))"

section \<open>Trimming\<close>

text \<open>
  \<^verbatim>\<open>Number.prototype.toString\<close>, used for the two arguments of the command. An
  integer of magnitude at most \<open>2\<^sup>5\<^sup>3\<close> is written with its decimal digits; any other
  finite number is written with the shortest digits that read back as the same double,
  which are left to the parameter \<open>other\<close>.
\<close>

definition digit_char :: "nat \<Rightarrow> char" where
  "digit_char d = ''0123456789'' ! d"

fun decimal :: "nat \<Rightarrow> string" where
  "decimal n = (if n < 10 then [digit_char n] else decimal (n div 10) @ [digit_char (n mod 10)])"

declare decimal.simps [simp del]

definition Number_toString :: "(real \<Rightarrow> string) \<Rightarrow> jsnum \<Rightarrow> string" where
  "Number_toString other x =
     (case x of
        NaN \<Rightarrow> ''NaN''
      | PInf \<Rightarrow> ''Infinity''
      | NInf \<Rightarrow> ''-Infinity''
      | Fin r \<Rightarrow>
          if r = of_int \<lfloor>r\<rfloor> \<and> \<bar>r\<bar> \<le> 2 ^ 53
          then (if r < 0 then ''-'' @ decimal (nat (- \<lfloor>r\<rfloor>)) else decimal (nat \<lfloor>r\<rfloor>))
          else other r)"

text \<open>
  The calls that leave the component during a trim, in the order made:
  \<^verbatim>\<open>fetchFile(videoSrc)\<close>, \<^verbatim>\<open>ffmpeg.FS("writeFile", name, data)\<close>,
  \<^verbatim>\<open>ffmpeg.run(...args)\<close> and \<^verbatim>\<open>ffmpeg.FS("readFile", name)\<close>.
\<close>

type_synonym bytes = "nat list"

datatype external_call =
    FetchFile "string option"
  | FS_writeFile string bytes
  | Run "string list"
  | FS_readFile string

text \<open>
  How the outside answers one trim: what \<^verbatim>\<open>fetchFile\<close> yields (\<open>None\<close>: it
  rejects), whether writing the input throws, the ratios the engine reports while it runs,
  whether the run rejects, what reading the output yields (\<open>None\<close>: it throws), and the URL
  that \<^verbatim>\<open>URL.createObjectURL\<close> makes for the result.
\<close>

record trim_env =
  fetchFile_result :: "bytes option"
  writeFile_throws :: bool
  run_progress :: "jsnum list"
  run_throws :: bool
  readFile_result :: "bytes option"
  createObjectURL_result :: string

text \<open>The effect that loads the engine (lines 39 to 51); \<open>load_ok\<close> tells whether \<^verbatim>\<open>ffmpeg.load()\<close> resolves.\<close>

definition ffmpeg_load_effect :: "bool \<Rightarrow> app_state \<Rightarrow> app_state" where
  "ffmpeg_load_effect load_ok s =
     (if \<not> ffmpegReady s then
        (let s1 = s\<lparr>error := None\<rparr>
         in if load_ok then s1\<lparr>ffmpegReady := True\<rparr> else s1\<lparr>error := Some FFmpegLoadFailed\<rparr>)
      else s)"

text \<open>The progress callback registered at lines 33 to 37.\<close>

definition onProgress :: "jsnum \<Rightarrow> app_state \<Rightarrow> app_state" where
  "onProgress ratio s = s\<lparr>processingProgress := ratio\<rparr>"

text \<open>The arguments of \<^verbatim>\<open>ffmpeg.run\<close> (lines 78 to 88), from the constants of the closure.\<close>

definition trim_args :: "(real \<Rightarrow> string) \<Rightarrow> app_state \<Rightarrow> string list" where
  "trim_args other snap =
     [''-ss'', Number_toString other (trimStart snap),
      ''-i'', ''input.mp4'',
      ''-t'', Number_toString other (trimDuration snap),
      ''-c'', ''copy'',
      ''output.mp4'']"

text \<open>
  \<^verbatim>\<open>trimVideo\<close> (lines 68 to 98) is an \<^verbatim>\<open>async\<close> function: it runs to its first
  \<^verbatim>\<open>await\<close> at once and the rest later. Lines 71 to 75, up to the call of
  \<^verbatim>\<open>fetchFile\<close>, are \<open>trimVideo_start\<close>. What the \<^verbatim>\<open>try\<close> block does once that
  call has settled is \<open>trimVideo_try\<close>: it reads \<^verbatim>\<open>trimStart\<close> and
  \<^verbatim>\<open>trimDuration\<close> from the closure \<open>snap\<close> (the state of the render in which the
  button was clicked) and writes to the state cells as they are when it resumes, \<open>cur\<close>;
  it returns whether it threw, the state, and the calls it made. \<open>trimVideo_resume\<close>
  adds the \<^verbatim>\<open>catch\<close> block.
\<close>

definition trimVideo_start :: "app_state \<Rightarrow> app_state \<times> external_call list" where
  "trimVideo_start s = (s\<lparr>error := None, processingProgress := Fin 0\<rparr>, [FetchFile (videoSrc s)])"

definition trimVideo_try ::
  "(real \<Rightarrow> string) \<Rightarrow> trim_env \<Rightarrow> app_state \<Rightarrow> app_state \<Rightarrow> bool \<times> app_state \<times> external_call list" where
  "trimVideo_try other env snap cur =
     (case fetchFile_result env of
        None \<Rightarrow> (True, cur, [])
      | Some fileData \<Rightarrow>
          if writeFile_throws env
          then (True, cur, [FS_writeFile ''input.mp4'' fileData])
          else
            (let calls = [FS_writeFile ''input.mp4'' fileData, Run (trim_args other snap)];
                 cur1 = foldl (\<lambda>st ratio. onProgress ratio st) cur (run_progress env)
             in if run_throws env then (True, cur1, calls)
                else
                  (case readFile_result env of
                     None \<Rightarrow> (True, cur1, calls @ [FS_readFile ''output.mp4''])
                   | Some data \<Rightarrow>
                       (False, cur1\<lparr>trimmedSrc := Some (createObjectURL_result env)\<rparr>,
                        calls @ [FS_readFile ''output.mp4'']))))"

definition trimVideo_resume ::
  "(real \<Rightarrow> string) \<Rightarrow> trim_env \<Rightarrow> app_state \<Rightarrow> app_state \<Rightarrow> app_state \<times> external_call list" where
  "trimVideo_resume other env snap cur =
     (case trimVideo_try other env snap cur of
        (True, st, calls) \<Rightarrow> (st\<lparr>error := Some TrimFailed\<rparr>, calls)
      | (False, st, calls) \<Rightarrow> (st, calls))"

text \<open>One call of \<^verbatim>\<open>trimVideo\<close> that nothing interleaves with.\<close>

definition trimVideo ::
  "(real \<Rightarrow> string) \<Rightarrow> trim_env \<Rightarrow> app_state \<Rightarrow> app_state \<times> external_call list" where
  "trimVideo other env s =
     (if \<not> ffmpegReady s \<or> \<not> truthy (videoSrc s) then (s, [])
      else
        (case trimVideo_start s of
           (s0, calls0) \<Rightarrow>
             (case trimVideo_resume other env s s0 of
                (s', calls1) \<Rightarrow> (s', calls0 @ calls1))))"

text \<open>
  What the markup shows of the outcome: the alert at line 202 is rendered under
  \<^verbatim>\<open>error &&\<close> (both messages are non-empty), the trimmed video and its download
  link at line 407 under \<^verbatim>\<open>trimmedSrc &&\<close>.
\<close>

definition alert_shown :: "app_state \<Rightarrow> bool" where
  "alert_shown s = (error s \<noteq> None)"

definition download_shown :: "app_state \<Rightarrow> bool" where
  "download_shown s = truthy (trimmedSrc s)"

text \<open>
  Clicks and completions interleaved. A session holds the state cells, the closures of
  the calls of \<^verbatim>\<open>trimVideo\<close> that have passed the guard and not yet finished, and the
  log of external calls. \<open>click_trim\<close> is a click on the trim button (its handler is
  \<^verbatim>\<open>trimVideo\<close>, line 301; the button itself is disabled by \<^verbatim>\<open>!ffmpegReady\<close> only,
  line 302); \<open>settle_trim\<close> lets the \<open>k\<close>-th suspended call run to its end.
\<close>

record session =
  app :: app_state
  in_flight :: "app_state list"
  calls :: "external_call list"

definition click_trim :: "session \<Rightarrow> session" where
  "click_trim ss =
     (if \<not> ffmpegReady (app ss) \<or> \<not> truthy (videoSrc (app ss)) then ss
      else
        (case trimVideo_start (app ss) of
           (s0, calls0) \<Rightarrow>
             ss\<lparr>app := s0, in_flight := in_flight ss @ [app ss], calls := calls ss @ calls0\<rparr>))"

definition settle_trim :: "(real \<Rightarrow> string) \<Rightarrow> trim_env \<Rightarrow> nat \<Rightarrow> session \<Rightarrow> session" where
  "settle_trim other env k ss =
     (if k < length (in_flight ss) then
        (case trimVideo_resume other env (in_flight ss ! k) (app ss) of
           (s', cs) \<Rightarrow>
             ss\<lparr>app := s',
                in_flight := take k (in_flight ss) @ drop (Suc k) (in_flight ss),
                calls := calls ss @ cs\<rparr>)
      else ss)"

section \<open>Example states\<close>

text \<open>
  A state in which the engine is ready and a source of 20 seconds is loaded and mounted,
  with a timeline 600 pixels wide.
\<close>

definition example_loaded :: app_state where
  "example_loaded =
     initial_state
       \<lparr> videoSrc := Some ''blob:1'',
         ffmpegReady := True,
         videoRef := Some \<lparr>duration = Fin 20, currentTime = Fin 0, paused = True, ended = False\<rparr>,
         canvasRef := Some \<lparr>has_context = True\<rparr>,
         timelineRef := Some \<lparr>clientWidth = 600\<rparr> \<rparr>"

text \<open>An element whose \<open>k\<close>-th seek ends as \<open>r\<close> and whose other seeks settle.\<close>

definition seek_fails_at :: "nat \<Rightarrow> seek_result \<Rightarrow> nat \<Rightarrow> jsnum \<Rightarrow> seek_result" where
  "seek_fails_at k r i t = (if i = k then r else Seeked ''data:image/png'')"

text \<open>The loaded state with a strip of two frames.\<close>

definition example_sampled :: app_state where
  "example_sampled =
     example_loaded\<lparr>frames := [\<lparr>time = Fin 0, image_src = ''a''\<rparr>, \<lparr>time = Fin 2, image_src = ''b''\<rparr>]\<rparr>"

text \<open>An element all of whose seeks settle, and the loaded state with a source of one second.\<close>

definition seek_settles :: "nat \<Rightarrow> jsnum \<Rightarrow> seek_result" where
  "seek_settles i t = Seeked ''data:image/png''"

definition example_one_second :: app_state where
  "example_one_second =
     example_loaded
       \<lparr>videoRef := Some \<lparr>duration = Fin 1, currentTime = Fin 0, paused = True, ended = False\<rparr>\<rparr>"

text \<open>The same with a source of duration 0.\<close>

definition example_empty_video :: app_state where
  "example_empty_video =
     example_loaded
       \<lparr>videoRef := Some \<lparr>duration = Fin 0, currentTime = Fin 0, paused = True, ended = False\<rparr>\<rparr>"

text \<open>
  A rendering for the numbers that \<open>Number_toString\<close> leaves open; the examples use
  integers only and never reach it.
\<close>

definition example_other :: "real \<Rightarrow> string" where
  "example_other r = ''?''"

text \<open>An outside for which a trim succeeds, and one whose engine rejects the command.\<close>

definition example_env_ok :: trim_env where
  "example_env_ok =
     \<lparr> fetchFile_result = Some [0, 0, 0, 32], writeFile_throws = False,
       run_progress = [Fin 0, Fin (1/2), Fin 1], run_throws = False,
       readFile_result = Some [0, 0, 0, 24], createObjectURL_result = ''blob:2'' \<rparr>"

definition example_env_run_fails :: trim_env where
  "example_env_run_fails =
     \<lparr> fetchFile_result = Some [0, 0, 0, 32], writeFile_throws = False,
       run_progress = [Fin 0, Fin (1/2)], run_throws = True,
       readFile_result = None, createObjectURL_result = ''blob:3'' \<rparr>"

text \<open>The loaded state after a successful trim, and a session that starts from the loaded state.\<close>

definition example_trimmed :: app_state where
  "example_trimmed = example_loaded\<lparr>trimmedSrc := Some ''blob:2'', processingProgress := Fin 1\<rparr>"

definition example_session :: session where
  "example_session = \<lparr> app = example_loaded, in_flight = [], calls = [] \<rparr>"

section \<open>Properties\<close>

subsection \<open>Rounding\<close>

lemma rhe_int: "rhe (of_int n) = n"
  by (simp add: rhe_def)

lemma rhe_bounds: "\<lfloor>m\<rfloor> \<le> rhe m" "rhe m \<le> \<lfloor>m\<rfloor> + 1"
  by (simp_all add: rhe_def Let_def)

lemma rhe_mono: "m \<le> m' \<Longrightarrow> rhe m \<le> rhe m'"
proof -
  assume le: "m \<le> m'"
  have fl: "\<lfloor>m\<rfloor> \<le> \<lfloor>m'\<rfloor>" using le by (rule floor_mono)
  show ?thesis
  proof (cases "\<lfloor>m\<rfloor> = \<lfloor>m'\<rfloor>")
    case True
    then show ?thesis using le by (auto simp add: rhe_def Let_def)
  next
    case False
    then have "\<lfloor>m\<rfloor> + 1 \<le> \<lfloor>m'\<rfloor>" using fl by simp
    then show ?thesis using rhe_bounds(2) [of m] rhe_bounds(1) [of m'] by linarith
  qed
qed

lemma find_expo_range: "e - int n \<le> find_expo n e x \<and> find_expo n e x \<le> e"
proof (induction n arbitrary: e)
  case 0
  then show ?case by simp
next
  case (Suc n)
  from Suc [of "e - 1"] show ?case by auto
qed

lemma find_expo_above: "find_expo n e x < k \<Longrightarrow> k \<le> e \<Longrightarrow> x < 2 powi k"
proof (induction n arbitrary: e)
  case 0
  then show ?case by simp
next
  case (Suc n)
  show ?case
  proof (cases "2 powi e \<le> x")
    case True
    then show ?thesis using Suc.prems by simp
  next
    case False
    show ?thesis
    proof (cases "k = e")
      case True
      then show ?thesis using False by simp
    next
      case False
      with Suc.prems have "k \<le> e - 1" by simp
      moreover have "find_expo n (e - 1) x < k" using Suc.prems \<open>\<not> 2 powi e \<le> x\<close> by simp
      ultimately show ?thesis by (rule Suc.IH [rotated])
    qed
  qed
qed

lemma find_expo_below: "e - int n < find_expo n e x \<Longrightarrow> 2 powi (find_expo n e x) \<le> x"
proof (induction n arbitrary: e)
  case 0
  then show ?case by simp
next
  case (Suc n)
  show ?case
  proof (cases "2 powi e \<le> x")
    case True
    then show ?thesis by simp
  next
    case False
    then show ?thesis using Suc.IH [of "e - 1"] Suc.prems by simp
  qed
qed

lemma expo_range: "- 1022 \<le> expo x" "expo x \<le> 1023"
  using find_expo_range [of 1023 2045 x] by (simp_all add: expo_def)

lemma expo_upper: "expo x < k \<Longrightarrow> k \<le> 1023 \<Longrightarrow> x < 2 powi k"
  unfolding expo_def by (rule find_expo_above)

lemma expo_lower: "- 1022 < expo x \<Longrightarrow> 2 powi (expo x) \<le> x"
  using find_expo_below [of 1023 2045 x] by (simp add: expo_def)

lemma expo_eqI:
  assumes "2 powi k \<le> x" and "x < 2 powi (k + 1)" and "- 1022 \<le> k" and "k \<le> 1023"
  shows "expo x = k"
proof (rule antisym)
  show "expo x \<le> k"
  proof (rule ccontr)
    assume "\<not> expo x \<le> k"
    then have gt: "k + 1 \<le> expo x" by simp
    then have "- 1022 < expo x" using assms(3) by simp
    then have "2 powi (expo x) \<le> x" by (rule expo_lower)
    moreover have "(2::real) powi (k + 1) \<le> 2 powi (expo x)"
      using gt by (intro power_int_increasing) simp_all
    ultimately show False using assms(2) by simp
  qed
  show "k \<le> expo x"
  proof (rule ccontr)
    assume "\<not> k \<le> expo x"
    then have "expo x < k" by simp
    then have "x < 2 powi k" using assms(4) by (rule expo_upper)
    then show False using assms(1) by simp
  qed
qed

lemma expo_mono:
  assumes "0 < x" and "x \<le> y"
  shows "expo x \<le> expo y"
proof (rule ccontr)
  assume "\<not> expo x \<le> expo y"
  then have lt: "expo y < expo x" by simp
  then have "y < 2 powi (expo x)" using expo_range(2) [of x] by (rule expo_upper)
  moreover have "- 1022 < expo x" using lt expo_range(1) [of y] by simp
  then have "2 powi (expo x) \<le> x" by (rule expo_lower)
  ultimately show False using assms(2) by simp
qed


lemma ulp_pos: "0 < (2::real) powi e"
  by simp

lemma ulp_times:
  "(2::real) powi e = 2 ^ 52 * 2 powi (e - 52)"
  "(2::real) powi (e + 1) = 2 ^ 53 * 2 powi (e - 52)"
proof -
  have "(2::real) powi ((e - 52) + 52) = 2 powi (e - 52) * 2 powi 52"
    by (rule power_int_add) simp
  then show "(2::real) powi e = 2 ^ 52 * 2 powi (e - 52)" by (simp add: mult.commute)
  have "(2::real) powi ((e - 52) + 53) = 2 powi (e - 52) * 2 powi 53"
    by (rule power_int_add) simp
  moreover have "(e - 52) + 53 = e + 1" by simp
  ultimately have "(2::real) powi (e + 1) = 2 powi (e - 52) * 2 powi 53" by (simp only:)
  then show "(2::real) powi (e + 1) = 2 ^ 53 * 2 powi (e - 52)" by (simp add: mult.commute)
qed

lemma rhe_pow2: "rhe ((2::real) ^ n) = 2 ^ n"
  using rhe_int [of "2 ^ n"] by simp

lemma round_pos_le_pow:
  assumes "x < 2 powi (expo x + 1)"
  shows "round_pos x \<le> 2 powi (expo x + 1)"
proof -
  let ?u = "(2::real) powi (expo x - 52)"
  have "x \<le> 2 ^ 53 * ?u" using assms by (simp only: ulp_times(2))
  then have "x / ?u \<le> 2 ^ 53" by (simp only: pos_divide_le_eq [OF ulp_pos])
  then have "rhe (x / ?u) \<le> rhe (2 ^ 53)" by (rule rhe_mono)
  then have "rhe (x / ?u) \<le> 2 ^ 53" by (simp only: rhe_pow2)
  then have "(of_int (rhe (x / ?u)) :: real) \<le> of_int (2 ^ 53)" by (simp only: of_int_le_iff)
  then have "of_int (rhe (x / ?u)) * ?u \<le> of_int (2 ^ 53) * ?u"
    by (rule mult_right_mono) simp
  moreover have "(of_int (2 ^ 53) :: real) = 2 ^ 53" by simp
  ultimately have "of_int (rhe (x / ?u)) * ?u \<le> 2 ^ 53 * ?u" by (simp only:)
  then show ?thesis by (simp only: round_pos_def ulp_times(2))
qed

lemma round_pos_ge_pow:
  assumes "2 powi (expo x) \<le> x"
  shows "2 powi (expo x) \<le> round_pos x"
proof -
  let ?u = "(2::real) powi (expo x - 52)"
  have "2 ^ 52 * ?u \<le> x" using assms ulp_times(1) [of "expo x"] by (simp only:)
  then have "2 ^ 52 \<le> x / ?u" by (simp only: pos_le_divide_eq [OF ulp_pos])
  then have "rhe (2 ^ 52) \<le> rhe (x / ?u)" by (rule rhe_mono)
  then have "2 ^ 52 \<le> rhe (x / ?u)" by (simp only: rhe_pow2)
  then have "(of_int (2 ^ 52) :: real) \<le> of_int (rhe (x / ?u))" by (simp only: of_int_le_iff)
  then have "of_int (2 ^ 52) * ?u \<le> of_int (rhe (x / ?u)) * ?u"
    by (rule mult_right_mono) simp
  moreover have "(of_int (2 ^ 52) :: real) = 2 ^ 52" by simp
  ultimately have "2 ^ 52 * ?u \<le> of_int (rhe (x / ?u)) * ?u" by (simp only:)
  then show ?thesis using ulp_times(1) [of "expo x"] by (simp only: round_pos_def)
qed

lemma round_pos_mono:
  assumes "0 < x" and "x \<le> y"
  shows "round_pos x \<le> round_pos y"
proof (cases "expo x = expo y")
  case True
  let ?u = "(2::real) powi (expo y - 52)"
  have "x / ?u \<le> y / ?u" using assms(2) by (simp add: divide_right_mono)
  then have "rhe (x / ?u) \<le> rhe (y / ?u)" by (rule rhe_mono)
  then have "(of_int (rhe (x / ?u)) :: real) \<le> of_int (rhe (y / ?u))" by simp
  then have "of_int (rhe (x / ?u)) * ?u \<le> of_int (rhe (y / ?u)) * ?u"
    by (rule mult_right_mono) simp
  then show ?thesis by (simp add: round_pos_def True)
next
  case False
  then have lt: "expo x < expo y" using expo_mono [OF assms] by simp
  then have "expo x + 1 \<le> 1023" using expo_range(2) [of y] by simp
  then have "x < 2 powi (expo x + 1)" by (intro expo_upper) simp_all
  then have a: "round_pos x \<le> 2 powi (expo x + 1)" by (rule round_pos_le_pow)
  have "- 1022 < expo y" using lt expo_range(1) [of x] by simp
  then have "2 powi (expo y) \<le> y" by (rule expo_lower)
  then have b: "2 powi (expo y) \<le> round_pos y" by (rule round_pos_ge_pow)
  have c: "(2::real) powi (expo x + 1) \<le> 2 powi (expo y)"
    using lt by (intro power_int_increasing) simp_all
  show ?thesis using a b c by linarith
qed

lemma round_pos_nonneg: "0 \<le> x \<Longrightarrow> 0 \<le> round_pos x"
proof -
  assume "0 \<le> x"
  then have "0 \<le> x / 2 powi (expo x - 52)" by simp
  then have "rhe 0 \<le> rhe (x / 2 powi (expo x - 52))" by (rule rhe_mono)
  then have "0 \<le> rhe (x / 2 powi (expo x - 52))" using rhe_int [of 0] by simp
  then show ?thesis by (simp add: round_pos_def)
qed

lemma round_pos_exact:
  assumes "2 powi k \<le> x" and "x < 2 powi (k + 1)" and "- 1022 \<le> k" and "k \<le> 1023"
    and "x = of_int n * 2 powi (k - 52)"
  shows "round_pos x = x"
proof -
  have e: "expo x = k" using assms(1-4) by (rule expo_eqI)
  have "x / 2 powi (k - 52) = of_int n" using assms(5) by simp
  then show ?thesis by (simp add: round_pos_def e rhe_int assms(5) [symmetric])
qed


text \<open>
  \<open>round_double\<close> is monotone on the non-negative reals, keeps them non-negative, fixes
  every real that is a double, and is finite below a power of two.
\<close>

lemma round_double_mono:
  assumes "0 \<le> x" and "x \<le> y"
  shows "js_le (round_double x) (round_double y)"
proof (cases "x = 0")
  case True
  then show ?thesis using assms(2) round_pos_nonneg [of y]
    by (simp add: round_double_def)
next
  case False
  then have pos: "0 < x" "0 < y" using assms by simp_all
  have "round_pos x \<le> round_pos y" using pos(1) assms(2) by (rule round_pos_mono)
  then show ?thesis using pos by (simp add: round_double_def)
qed

lemma round_double_nonneg:
  assumes "0 \<le> x"
  shows "round_double x = PInf \<or> (\<exists>r. round_double x = Fin r \<and> 0 \<le> r)"
  using assms round_pos_nonneg [of x] by (simp add: round_double_def)

lemma round_double_exact:
  assumes "2 powi k \<le> x" and "x < 2 powi (k + 1)" and "- 1022 \<le> k" and "k \<le> 1023"
    and "x = of_int n * 2 powi (k - 52)"
  shows "round_double x = Fin x"
proof -
  have r: "round_pos x = x" using assms by (rule round_pos_exact)
  have "(0::real) < 2 powi k" by simp
  then have pos: "0 < x" using assms(1) by linarith
  have "(2::real) powi (k + 1) \<le> 2 powi 1024"
    using assms(4) by (intro power_int_increasing) simp_all
  then have "x < 2 powi 1024" using assms(2) by linarith
  then show ?thesis using pos by (simp add: round_double_def r)
qed

lemma round_double_one: "round_double 1 = Fin 1"
  using round_double_exact [of 0 1 "2 ^ 52"] by simp

lemma round_double_le_one:
  assumes "0 \<le> x" and "x \<le> 1"
  shows "\<exists>r. round_double x = Fin r \<and> 0 \<le> r \<and> r \<le> 1"
proof -
  have "js_le (round_double x) (Fin 1)"
    using round_double_mono [OF assms] by (simp add: round_double_one)
  then show ?thesis using round_double_nonneg [OF assms(1)] by auto
qed

lemma round_double_finite:
  assumes "0 \<le> x" and "x \<le> 2 powi k" and "- 1022 \<le> k" and "k \<le> 1023"
  shows "\<exists>r. round_double x = Fin r \<and> 0 \<le> r"
proof -
  have eq: "(2::real) powi k = of_int (2 ^ 52) * 2 powi (k - 52)"
    using ulp_times(1) [of k] by simp
  have lt: "(2::real) powi k < 2 powi (k + 1)"
    by (intro power_int_strict_increasing) simp_all
  have "round_double (2 powi k) = Fin (2 powi k)"
    by (rule round_double_exact [OF order_refl lt assms(3,4) eq])
  then have "js_le (round_double x) (Fin (2 powi k))"
    using round_double_mono [OF assms(1,2)] by simp
  then show ?thesis using round_double_nonneg [OF assms(1)] by auto
qed


lemma round_double_at:
  assumes "2 powi k \<le> x" and "x < 2 powi (k + 1)" and "- 1022 \<le> k" and "k \<le> 1022"
  shows "round_double x = Fin (of_int (rhe (x / 2 powi (k - 52))) * 2 powi (k - 52))"
proof -
  have k': "k \<le> 1023" using assms(4) by simp
  have e: "expo x = k" using assms(1-3) k' by (rule expo_eqI)
  have "(0::real) < 2 powi k" by simp
  then have pos: "0 < x" using assms(1) by linarith
  have "x < 2 powi (expo x + 1)" using assms(2) e by simp
  then have "round_pos x \<le> 2 powi (k + 1)" using round_pos_le_pow [of x] e by simp
  moreover have "(2::real) powi (k + 1) < 2 powi 1024"
    using assms(4) by (intro power_int_strict_increasing) simp_all
  ultimately have "round_pos x < 2 powi 1024" by linarith
  then show ?thesis using pos by (simp add: round_double_def round_pos_def e)
qed

text \<open>
  Some values: a tenth is not a double, three times its double lies halfway between two
  doubles and is rounded to the even one, which is not the double nearest to three
  tenths.
\<close>

lemma tenth: "round_double (1 / 10) = Fin (7205759403792794 / 2 ^ 56)"
  using round_double_at [of "- 4" "1 / 10"]
  by (simp add: rhe_def Let_def power_int_minus)

lemma three_tenths: "round_double (3 * (7205759403792794 / 2 ^ 56)) = Fin (5404319552844596 / 2 ^ 54)"
  using round_double_at [of "- 2" "3 * (7205759403792794 / 2 ^ 56)"]
  by (simp add: rhe_def Let_def power_int_minus)

lemma three_tenths_nearest: "round_double (3 * (1 / 10)) = Fin (5404319552844595 / 2 ^ 54)"
  using round_double_at [of "- 2" "3 * (1 / 10)"]
  by (simp add: rhe_def Let_def power_int_minus)

lemma quarter: "round_double (1 / 4) = Fin (1 / 4)"
  by (rule round_double_exact [where k = "- 2" and n = "2 ^ 52"]) (simp_all add: power_int_minus)

lemma hundred_fifty: "round_double 150 = Fin 150"
  by (rule round_double_exact [where k = 7 and n = "150 * 2 ^ 45"]) (simp_all add: power_int_minus)

text \<open>
  Claim C5. Whatever the state was, \<^verbatim>\<open>handleFileChange\<close> with a file present leaves
  the frame sequence empty, the cursor time at 0, no trimmed artifact, trim start 0, trim
  duration back at its default 5, no error and progress 0; the source becomes the new
  object URL and nothing else changes.
\<close>

theorem handleFileChange_resets:
  "handleFileChange mk (Some f) s =
     s\<lparr> videoSrc := Some (mk f), trimmedSrc := None, frames := [], cursorTime := Fin 0,
        trimStart := Fin 0, trimDuration := Fin 5, error := None,
        processingProgress := Fin 0 \<rparr>
   \<and> frames (handleFileChange mk (Some f) s) = []
   \<and> cursorTime (handleFileChange mk (Some f) s) = Fin 0
   \<and> trimmedSrc (handleFileChange mk (Some f) s) = None
   \<and> trimStart (handleFileChange mk (Some f) s) = Fin 0
   \<and> trimDuration (handleFileChange mk (Some f) s) = Fin 5
   \<and> error (handleFileChange mk (Some f) s) = None
   \<and> processingProgress (handleFileChange mk (Some f) s) = Fin 0"
  by (simp add: handleFileChange_def)

subsection \<open>The sampling loop\<close>

text \<open>When every seek from \<open>i\<close> on settles, the loop runs to its end and appends one frame per index.\<close>

lemma capture_loop_all_settle:
  "(\<forall>j. i \<le> j \<and> j \<le> n \<longrightarrow> (\<exists>img. seek j (js_mul (Fin (real j)) iv) = Seeked img)) \<Longrightarrow>
   \<exists>fs v'. capture_loop seek n iv i v th sk =
       (Resolved, v', th @ fs, sk @ map (\<lambda>j. js_mul (Fin (real j)) iv) [i..<Suc n])
     \<and> map time fs = map (\<lambda>j. js_mul (Fin (real j)) iv) [i..<Suc n]"
proof (induction seek n iv i v th sk rule: capture_loop.induct)
  case (1 seek n iv i v th sk)
  show ?case
  proof (cases "i \<le> n")
    case False
    then show ?thesis by (simp add: capture_loop.simps)
  next
    case True
    let ?t = "js_mul (Fin (real i)) iv"
    from 1(2) True obtain img where img: "seek i ?t = Seeked img" by blast
    have rest: "\<forall>j. i + 1 \<le> j \<and> j \<le> n \<longrightarrow> (\<exists>img. seek j (js_mul (Fin (real j)) iv) = Seeked img)"
      using 1(2) by auto
    from 1(1)[OF True refl img rest]
    obtain fs v' where
      a: "capture_loop seek n iv (i + 1) (v\<lparr>currentTime := ?t\<rparr>) (th @ [\<lparr>time = ?t, image_src = img\<rparr>]) (sk @ [?t]) =
          (Resolved, v', (th @ [\<lparr>time = ?t, image_src = img\<rparr>]) @ fs, (sk @ [?t]) @ map (\<lambda>j. js_mul (Fin (real j)) iv) [i + 1..<Suc n])"
      and b: "map time fs = map (\<lambda>j. js_mul (Fin (real j)) iv) [i + 1..<Suc n]"
      by blast
    have up: "[i..<Suc n] = i # [i + 1..<Suc n]" using True by (simp add: upt_conv_Cons)
    have "capture_loop seek n iv i v th sk =
       (Resolved, v', th @ (\<lparr>time = ?t, image_src = img\<rparr> # fs), sk @ map (\<lambda>j. js_mul (Fin (real j)) iv) [i..<Suc n])"
      using True img a up by (subst capture_loop.simps) (simp add: Let_def del: upt_Suc)
    moreover have "map time (\<lparr>time = ?t, image_src = img\<rparr> # fs) = map (\<lambda>j. js_mul (Fin (real j)) iv) [i..<Suc n]"
      using b up by (simp del: upt_Suc)
    ultimately show ?thesis by blast
  qed
qed

text \<open>When the seek of index \<open>k\<close> is the first that fails, the loop stops there.\<close>

lemma capture_loop_first_failure:
  "i \<le> k \<Longrightarrow> k \<le> n \<Longrightarrow>
   (\<forall>j. i \<le> j \<and> j < k \<longrightarrow> (\<exists>img. seek j (js_mul (Fin (real j)) iv) = Seeked img)) \<Longrightarrow>
   seek k (js_mul (Fin (real k)) iv) = SeekThrows \<or> seek k (js_mul (Fin (real k)) iv) = SeekNever \<Longrightarrow>
   \<exists>v' fs. capture_loop seek n iv i v th sk =
       (if seek k (js_mul (Fin (real k)) iv) = SeekThrows then Rejected else Pending, v', fs,
        sk @ map (\<lambda>j. js_mul (Fin (real j)) iv) [i..<Suc k])"
proof (induction seek n iv i v th sk rule: capture_loop.induct)
  case (1 seek n iv i v th sk)
  let ?t = "js_mul (Fin (real i)) iv"
  have in_range: "i \<le> n" using 1(2,3) by simp
  show ?case
  proof (cases "i = k")
    case True
    then have "[i..<Suc k] = [k]" by simp
    then show ?thesis
      using True in_range 1(5)
      by (subst capture_loop.simps) (auto simp add: Let_def simp del: upt_Suc)
  next
    case False
    then have lt: "i < k" using 1(2) by simp
    then obtain img where img: "seek i ?t = Seeked img" using 1(4) by blast
    have rest: "\<forall>j. i + 1 \<le> j \<and> j < k \<longrightarrow> (\<exists>img. seek j (js_mul (Fin (real j)) iv) = Seeked img)"
      using 1(4) by auto
    have le: "i + 1 \<le> k" using lt by simp
    from 1(1)[OF in_range refl img le 1(3) rest 1(5)]
    obtain v' fs where
      a: "capture_loop seek n iv (i + 1) (v\<lparr>currentTime := ?t\<rparr>)
            (th @ [\<lparr>time = ?t, image_src = img\<rparr>]) (sk @ [?t]) =
          (if seek k (js_mul (Fin (real k)) iv) = SeekThrows then Rejected else Pending, v', fs,
           (sk @ [?t]) @ map (\<lambda>j. js_mul (Fin (real j)) iv) [i + 1..<Suc k])"
      by blast
    have up: "[i..<Suc k] = i # [i + 1..<Suc k]" using lt by (simp add: upt_conv_Cons)
    have "capture_loop seek n iv i v th sk =
       (if seek k (js_mul (Fin (real k)) iv) = SeekThrows then Rejected else Pending, v', fs,
        sk @ map (\<lambda>j. js_mul (Fin (real j)) iv) [i..<Suc k])"
      using in_range img a up by (subst capture_loop.simps) (simp add: Let_def del: upt_Suc)
    then show ?thesis by blast
  qed
qed

text \<open>
  With every seek settling, the run resolves and publishes one frame per index, with the
  times it requested.
\<close>

lemma captureFrames_times:
  assumes "videoRef s = Some v" and "canvasRef s = Some c" and "has_context c"
    and "\<forall>i\<le>10. \<exists>img. seek i (js_mul (Fin (real i)) (js_div (duration v) (Fin 10))) = Seeked img"
  shows "\<exists>s'. captureFrames seek s =
       (s', Resolved, map (\<lambda>i. js_mul (Fin (real i)) (js_div (duration v) (Fin 10))) [0..<Suc 10])
     \<and> map time (frames s') = map (\<lambda>i. js_mul (Fin (real i)) (js_div (duration v) (Fin 10))) [0..<Suc 10]"
proof -
  let ?iv = "js_div (duration v) (Fin 10)"
  have "\<forall>j. 0 \<le> j \<and> j \<le> 10 \<longrightarrow> (\<exists>img. seek j (js_mul (Fin (real j)) ?iv) = Seeked img)"
    using assms(4) by simp
  from capture_loop_all_settle [where i = 0 and n = 10 and seek = seek and iv = ?iv
      and v = v and th = "[]" and sk = "[]", OF this]
  obtain fs v' where
    run: "capture_loop seek 10 ?iv 0 v [] [] =
            (Resolved, v', fs, map (\<lambda>j. js_mul (Fin (real j)) ?iv) [0..<Suc 10])"
    and times: "map time fs = map (\<lambda>j. js_mul (Fin (real j)) ?iv) [0..<Suc 10]"
    by (auto simp del: upt_Suc)
  have "captureFrames seek s =
      (s\<lparr>videoRef := Some v', frames := fs\<rparr>, Resolved, map (\<lambda>j. js_mul (Fin (real j)) ?iv) [0..<Suc 10])"
    using assms(1-3) run by (simp add: captureFrames_def del: upt_Suc)
  then show ?thesis using times by (simp del: upt_Suc)
qed

lemma sorted_sample_times:
  assumes "0 \<le> c"
  shows "sorted_wrt js_le (map (\<lambda>i. js_mul (Fin (real i)) (Fin c)) [0..<n])"
proof -
  have step: "js_le (js_mul (Fin (real i)) (Fin c)) (js_mul (Fin (real j)) (Fin c))" if "i < j" for i j
  proof -
    have "0 \<le> real i * c" using assms by simp
    moreover have "real i * c \<le> real j * c" using that assms by (simp add: mult_right_mono)
    ultimately show ?thesis by (simp add: round_double_mono)
  qed
  have "sorted_wrt (\<lambda>i j. js_le (js_mul (Fin (real i)) (Fin c)) (js_mul (Fin (real j)) (Fin c))) [0..<n]"
    by (rule sorted_wrt_mono_rel [OF _ sorted_wrt_upt]) (rule step)
  then show ?thesis by (simp add: sorted_wrt_map)
qed

lemma interval_finite:
  assumes "0 \<le> d" and "d < 2 powi 1024"
  shows "\<exists>c. js_div (Fin d) (Fin 10) = Fin c \<and> 0 \<le> c"
proof -
  have "(2::real) powi (1021 + 3) = 2 powi 1021 * 2 powi 3"
    by (rule power_int_add) simp
  then have "(2::real) powi 1024 = 8 * 2 powi 1021" by simp
  moreover have "(0::real) < 2 powi 1021" by simp
  ultimately have "d / 10 \<le> 2 powi 1021" using assms(2) by linarith
  moreover have "0 \<le> d / 10" using assms(1) by simp
  ultimately have "\<exists>r. round_double (d / 10) = Fin r \<and> 0 \<le> r"
    by (intro round_double_finite [where k = 1021]) simp_all
  then show ?thesis by simp
qed

text \<open>
  Claim C1, as the code has it. For a mounted video of finite duration \<open>d \<ge> 0\<close> (below
  \<open>2\<^sup>1\<^sup>0\<^sup>2\<^sup>4\<close>, as every finite double is) whose seeks all settle, \<^verbatim>\<open>captureFrames\<close> (sample count 10) publishes exactly 11 frames;
  their times are the doubles \<^verbatim>\<open>i * (d / 10)\<close> for \<open>i = 0, \<dots>, 10\<close> in that order, each
  the rounded product of \<open>i\<close> and the rounded quotient; they are non-decreasing, they are
  the times requested of the element in the order requested, and the first is 0.
\<close>

theorem captureFrames_samples:
  assumes "videoRef s = Some v" and "canvasRef s = Some c" and "has_context c"
    and "duration v = Fin d" and "0 \<le> d" and "d < 2 powi 1024"
    and "\<forall>i\<le>10. \<exists>img. seek i (js_mul (Fin (real i)) (js_div (Fin d) (Fin 10))) = Seeked img"
  shows "\<exists>s' seeks. captureFrames seek s = (s', Resolved, seeks)
     \<and> length (frames s') = 10 + 1
     \<and> map time (frames s') = map (\<lambda>i. js_mul (Fin (real i)) (js_div (Fin d) (Fin 10))) [0..<10 + 1]
     \<and> sorted_wrt js_le (map time (frames s'))
     \<and> seeks = map time (frames s')
     \<and> time (frames s' ! 0) = Fin 0"
proof -
  from captureFrames_times [OF assms(1-3)] assms(4,7)
  obtain s' where
    res: "captureFrames seek s =
       (s', Resolved, map (\<lambda>i. js_mul (Fin (real i)) (js_div (Fin d) (Fin 10))) [0..<Suc 10])"
    and times: "map time (frames s') =
       map (\<lambda>i. js_mul (Fin (real i)) (js_div (Fin d) (Fin 10))) [0..<Suc 10]"
    by auto
  have len: "length (frames s') = 10 + 1"
    using arg_cong [OF times, of length] by simp
  obtain c where c: "js_div (Fin d) (Fin 10) = Fin c" "0 \<le> c"
    using interval_finite [OF assms(5,6)] by blast
  have srt: "sorted_wrt js_le (map time (frames s'))"
    unfolding times c(1) using c(2) by (rule sorted_sample_times)
  have "map time (frames s') ! 0 = js_mul (Fin (real (0::nat))) (Fin c)"
    unfolding times c(1) by (simp del: upt_Suc add: upt_conv_Cons)
  then have first: "time (frames s' ! 0) = Fin 0"
    using len by (simp add: round_double_def)
  show ?thesis
    using res len times srt first by (simp del: upt_Suc)
qed

theorem captureFrames_samples_witness:
  "\<exists>s' seeks. captureFrames seek_settles example_loaded = (s', Resolved, seeks)
     \<and> length (frames s') = 10 + 1
     \<and> map time (frames s') = map (\<lambda>i. js_mul (Fin (real i)) (js_div (Fin 20) (Fin 10))) [0..<10 + 1]
     \<and> sorted_wrt js_le (map time (frames s'))
     \<and> seeks = map time (frames s')
     \<and> time (frames s' ! 0) = Fin 0"
  by (rule captureFrames_samples [where v = "\<lparr>duration = Fin 20, currentTime = Fin 0, paused = True, ended = False\<rparr>"
        and c = "\<lparr>has_context = True\<rparr>"])
    (simp_all add: example_loaded_def initial_state_def seek_settles_def)

text \<open>
  The claim as stated equates the times with \<open>i * D / N\<close>. For a source of one second the
  fourth frame has the time 0.30000000000000004, which is neither three tenths nor the
  double nearest to it.
\<close>

theorem captureFrames_time_rounded:
  "time (frames (fst (captureFrames seek_settles example_one_second)) ! 3)
     = Fin (5404319552844596 / 2 ^ 54)
   \<and> time (frames (fst (captureFrames seek_settles example_one_second)) ! 3) \<noteq> Fin (3 * (1 / 10))
   \<and> time (frames (fst (captureFrames seek_settles example_one_second)) ! 3)
     \<noteq> round_double (3 * (1 / 10))"
proof -
  let ?v = "\<lparr>duration = Fin 1, currentTime = Fin 0, paused = True, ended = False\<rparr>"
  have "\<exists>s'. captureFrames seek_settles example_one_second =
       (s', Resolved, map (\<lambda>i. js_mul (Fin (real i)) (js_div (duration ?v) (Fin 10))) [0..<Suc 10])
     \<and> map time (frames s') = map (\<lambda>i. js_mul (Fin (real i)) (js_div (duration ?v) (Fin 10))) [0..<Suc 10]"
    by (rule captureFrames_times [where c = "\<lparr>has_context = True\<rparr>"])
      (simp_all add: example_one_second_def example_loaded_def initial_state_def seek_settles_def)
  then obtain s' where
    res: "fst (captureFrames seek_settles example_one_second) = s'"
    and times: "map time (frames s') =
       map (\<lambda>i. js_mul (Fin (real i)) (js_div (Fin 1) (Fin 10))) [0..<Suc 10]"
    by auto
  have len: "length (frames s') = 11"
    using arg_cong [OF times, of length] by simp
  have "map time (frames s') ! 3 = js_mul (Fin (real (3::nat))) (js_div (Fin 1) (Fin 10))"
    unfolding times by (simp del: upt_Suc add: nth_map_upt)
  then have "time (frames s' ! 3) = js_mul (Fin 3) (js_div (Fin 1) (Fin 10))"
    using len by simp
  moreover have "js_div (Fin 1) (Fin 10) = Fin (7205759403792794 / 2 ^ 56)"
    using tenth by simp
  moreover have "js_mul (Fin 3) (Fin (7205759403792794 / 2 ^ 56)) = Fin (5404319552844596 / 2 ^ 54)"
    using three_tenths by simp
  ultimately have val: "time (frames s' ! 3) = Fin (5404319552844596 / 2 ^ 54)"
    by (simp only:)
  show ?thesis
    unfolding res val using three_tenths_nearest by simp
qed

text \<open>
  Claim C3, as the code has it. When a seek of a run fails (the assignment throws, or the
  \<^verbatim>\<open>seeked\<close> event never comes), \<^verbatim>\<open>setFrames\<close> is not reached: the run changes
  nothing but the video element, so the frame sequence is what it was (empty after a
  load); no seek is requested after the failing one; the run's promise is rejected or
  stays pending, the listener that started the run drops it, and the error value is
  unchanged.
\<close>

theorem captureFrames_seek_failure:
  assumes "videoRef s = Some v" and "canvasRef s = Some c" and "has_context c"
    and "k \<le> 10"
    and "\<forall>j<k. \<exists>img. seek j (js_mul (Fin (real j)) (js_div (duration v) (Fin 10))) = Seeked img"
    and "seek k (js_mul (Fin (real k)) (js_div (duration v) (Fin 10))) = SeekThrows
       \<or> seek k (js_mul (Fin (real k)) (js_div (duration v) (Fin 10))) = SeekNever"
  shows "\<exists>v' outcome.
       captureFrames seek s =
         (s\<lparr>videoRef := Some v'\<rparr>, outcome,
          map (\<lambda>j. js_mul (Fin (real j)) (js_div (duration v) (Fin 10))) [0..<Suc k])
     \<and> outcome \<noteq> Resolved
     \<and> onLoadedMetadata seek s = s\<lparr>videoRef := Some v'\<rparr>
     \<and> frames (onLoadedMetadata seek s) = frames s
     \<and> error (onLoadedMetadata seek s) = error s"
proof -
  let ?iv = "js_div (duration v) (Fin 10)"
  have pre: "\<forall>j. 0 \<le> j \<and> j < k \<longrightarrow> (\<exists>img. seek j (js_mul (Fin (real j)) ?iv) = Seeked img)"
    using assms(5) by simp
  from capture_loop_first_failure [where i = 0 and k = k and n = 10 and seek = seek
      and iv = ?iv and v = v and th = "[]" and sk = "[]", OF _ assms(4) pre assms(6)]
  obtain v' fs where
    run: "capture_loop seek 10 ?iv 0 v [] [] =
            (if seek k (js_mul (Fin (real k)) ?iv) = SeekThrows then Rejected else Pending, v', fs,
             map (\<lambda>j. js_mul (Fin (real j)) ?iv) [0..<Suc k])"
    by (auto simp del: upt_Suc)
  let ?outcome = "if seek k (js_mul (Fin (real k)) ?iv) = SeekThrows then Rejected else Pending"
  have res: "captureFrames seek s =
      (s\<lparr>videoRef := Some v'\<rparr>, ?outcome, map (\<lambda>j. js_mul (Fin (real j)) ?iv) [0..<Suc k])"
    using assms(1-3) run by (simp add: captureFrames_def del: upt_Suc)
  have "?outcome \<noteq> Resolved" by simp
  with res show ?thesis
    by (intro exI [of _ v'] exI [of _ ?outcome]) (simp add: onLoadedMetadata_def del: upt_Suc)
qed

theorem captureFrames_seek_failure_witness:
  "\<exists>v' outcome.
       captureFrames (seek_fails_at 3 SeekNever) example_loaded =
         (example_loaded\<lparr>videoRef := Some v'\<rparr>, outcome,
          map (\<lambda>j. js_mul (Fin (real j)) (js_div (Fin 20) (Fin 10))) [0..<Suc 3])
     \<and> outcome \<noteq> Resolved
     \<and> onLoadedMetadata (seek_fails_at 3 SeekNever) example_loaded = example_loaded\<lparr>videoRef := Some v'\<rparr>
     \<and> frames (onLoadedMetadata (seek_fails_at 3 SeekNever) example_loaded) = frames example_loaded
     \<and> error (onLoadedMetadata (seek_fails_at 3 SeekNever) example_loaded) = error example_loaded"
  using captureFrames_seek_failure [of example_loaded
      "\<lparr>duration = Fin 20, currentTime = Fin 0, paused = True, ended = False\<rparr>"
      "\<lparr>has_context = True\<rparr>" 3 "seek_fails_at 3 SeekNever"]
  by (simp add: example_loaded_def initial_state_def seek_fails_at_def del: upt_Suc)

text \<open>
  The claim as stated also promises a notification. There is none: with the fourth seek
  throwing the promise is rejected and dropped, with the fourth seek never settling it
  stays pending, and in both runs the error value stays \<^verbatim>\<open>null\<close>.
\<close>

theorem captureFrames_failure_unreported:
  "seek_fails_at 3 SeekThrows 3 (Fin 6) = SeekThrows
   \<and> fst (snd (captureFrames (seek_fails_at 3 SeekThrows) example_loaded)) = Rejected
   \<and> error (onLoadedMetadata (seek_fails_at 3 SeekThrows) example_loaded) = None
   \<and> seek_fails_at 3 SeekNever 3 (Fin 6) = SeekNever
   \<and> fst (snd (captureFrames (seek_fails_at 3 SeekNever) example_loaded)) = Pending
   \<and> error (onLoadedMetadata (seek_fails_at 3 SeekNever) example_loaded) = None"
  by (simp add: onLoadedMetadata_def captureFrames_def example_loaded_def initial_state_def
      seek_fails_at_def capture_loop.simps Let_def)

subsection \<open>The timeline\<close>

text \<open>
  Claim C2. With a mounted video and timeline, a finite duration \<open>d\<close>, a cursor time
  \<open>t\<close> with \<open>0 \<le> t \<le> d\<close> and a track of width \<open>w\<close>, \<^verbatim>\<open>getCursorPosition\<close> returns a
  finite offset between 0 and \<open>w\<close>: it is 0 when \<open>d = 0\<close>, where the guard returns before
  the division, and the double \<^verbatim>\<open>Math.min(t / d * w, w)\<close> otherwise.
\<close>

theorem getCursorPosition_bounds:
  assumes "videoRef s = Some v" and "timelineRef s = Some tline"
    and "cursorTime s = Fin t" and "duration v = Fin d" and "0 \<le> t" and "t \<le> d"
  shows "\<exists>x. getCursorPosition s = Fin x \<and> 0 \<le> x \<and> x \<le> real (clientWidth tline)
     \<and> (if d = 0 then x = 0
         else Fin x = Math_min (js_mul (js_div (Fin t) (Fin d)) (Fin (real (clientWidth tline))))
                        (Fin (real (clientWidth tline))))"
proof (cases "d = 0")
  case True
  then show ?thesis using assms(1,2,4) by (simp add: getCursorPosition_def)
next
  case False
  let ?w = "real (clientWidth tline)"
  have pos: "0 < d" using False assms(5,6) by simp
  have "0 \<le> t / d" "t / d \<le> 1" using pos assms(5,6) by simp_all
  then obtain r where r: "round_double (t / d) = Fin r" "0 \<le> r" "r \<le> 1"
    using round_double_le_one by blast
  have ratio: "js_div (Fin t) (Fin d) = Fin r" using False r(1) by simp
  have res: "getCursorPosition s = Math_min (js_mul (Fin r) (Fin ?w)) (Fin ?w)"
    using assms(1-4) False ratio by (simp add: getCursorPosition_def Let_def)
  have "0 \<le> r * ?w" using r(2) by simp
  then consider "round_double (r * ?w) = PInf"
    | p where "round_double (r * ?w) = Fin p" "0 \<le> p"
    using round_double_nonneg by blast
  then have "\<exists>x. Math_min (js_mul (Fin r) (Fin ?w)) (Fin ?w) = Fin x \<and> 0 \<le> x \<and> x \<le> ?w"
  proof cases
    case 1
    then show ?thesis by simp
  next
    case 2
    then show ?thesis by simp
  qed
  then show ?thesis using res ratio False by auto
qed

theorem getCursorPosition_bounds_witness:
  "(\<exists>x. getCursorPosition (example_loaded\<lparr>cursorTime := Fin 5\<rparr>) = Fin x \<and> 0 \<le> x \<and> x \<le> real (600::nat)
     \<and> x = 5 / 20 * real (600::nat))
   \<and> (\<exists>x. getCursorPosition (example_empty_video\<lparr>cursorTime := Fin 0\<rparr>) = Fin x \<and> 0 \<le> x
     \<and> x \<le> real (600::nat) \<and> x = 0)"
  using getCursorPosition_bounds [of "example_loaded\<lparr>cursorTime := Fin 5\<rparr>"
      "\<lparr>duration = Fin 20, currentTime = Fin 0, paused = True, ended = False\<rparr>"
      "\<lparr>clientWidth = 600\<rparr>" 5 20]
    getCursorPosition_bounds [of "example_empty_video\<lparr>cursorTime := Fin 0\<rparr>"
      "\<lparr>duration = Fin 0, currentTime = Fin 0, paused = True, ended = False\<rparr>"
      "\<lparr>clientWidth = 600\<rparr>" 0 0]
  by (simp add: example_loaded_def example_empty_video_def initial_state_def quarter hundred_fifty)

text \<open>
  Claim C9. A click on the \<open>k\<close>-th frame of the strip assigns exactly that frame's
  \<^verbatim>\<open>time\<close> to the video element's \<^verbatim>\<open>currentTime\<close> and changes nothing else.
\<close>

theorem click_frame_seeks_to_frame_time:
  assumes "k < length (frames s)" and "videoRef s = Some v"
  shows "click_frame k s = s\<lparr>videoRef := Some (v\<lparr>currentTime := time (frames s ! k)\<rparr>)\<rparr>"
  using assms by (simp add: click_frame_def onTimelineClick_def)

theorem click_frame_seeks_to_frame_time_witness:
  "click_frame 1 example_sampled =
     example_sampled\<lparr>videoRef := Some \<lparr>duration = Fin 20, currentTime = Fin 2, paused = True, ended = False\<rparr>\<rparr>"
  using click_frame_seeks_to_frame_time [of 1 example_sampled
      "\<lparr>duration = Fin 20, currentTime = Fin 0, paused = True, ended = False\<rparr>"]
  by (simp add: example_sampled_def example_loaded_def initial_state_def)

subsection \<open>Trimming\<close>

text \<open>
  The progress callback touches the progress cell only; a \<^verbatim>\<open>try\<close> block in which
  some step throws leaves the artifact, the readiness flag and the source as they were;
  one in which no step throws stores the new URL.
\<close>

lemma progress_keeps:
  "trimmedSrc (foldl (\<lambda>st ratio. onProgress ratio st) cur rs) = trimmedSrc cur"
  "error (foldl (\<lambda>st ratio. onProgress ratio st) cur rs) = error cur"
  "ffmpegReady (foldl (\<lambda>st ratio. onProgress ratio st) cur rs) = ffmpegReady cur"
  "videoSrc (foldl (\<lambda>st ratio. onProgress ratio st) cur rs) = videoSrc cur"
  by (induction rs arbitrary: cur) (simp_all add: onProgress_def)

lemma trimVideo_try_thrown:
  assumes "fetchFile_result env = None \<or> writeFile_throws env \<or> run_throws env
     \<or> readFile_result env = None"
  shows "\<exists>st cs. trimVideo_try other env snap cur = (True, st, cs)
     \<and> trimmedSrc st = trimmedSrc cur \<and> ffmpegReady st = ffmpegReady cur
     \<and> videoSrc st = videoSrc cur"
  using assms
  by (auto simp add: trimVideo_try_def Let_def progress_keeps split: option.splits)

lemma trimVideo_resume_failure:
  assumes "fetchFile_result env = None \<or> writeFile_throws env \<or> run_throws env
     \<or> readFile_result env = None"
  shows "error (fst (trimVideo_resume other env snap cur)) = Some TrimFailed
     \<and> trimmedSrc (fst (trimVideo_resume other env snap cur)) = trimmedSrc cur
     \<and> ffmpegReady (fst (trimVideo_resume other env snap cur)) = ffmpegReady cur
     \<and> videoSrc (fst (trimVideo_resume other env snap cur)) = videoSrc cur"
proof -
  from trimVideo_try_thrown [OF assms, of other snap cur]
  obtain st cs where "trimVideo_try other env snap cur = (True, st, cs)"
    and "trimmedSrc st = trimmedSrc cur" and "ffmpegReady st = ffmpegReady cur"
    and "videoSrc st = videoSrc cur"
    by blast
  then show ?thesis by (simp add: trimVideo_resume_def)
qed

lemma trimVideo_resume_success:
  assumes "fetchFile_result env = Some d" and "\<not> writeFile_throws env" and "\<not> run_throws env"
    and "readFile_result env = Some out"
  shows "error (fst (trimVideo_resume other env snap cur)) = error cur
     \<and> trimmedSrc (fst (trimVideo_resume other env snap cur)) = Some (createObjectURL_result env)"
  using assms by (simp add: trimVideo_resume_def trimVideo_try_def Let_def progress_keeps)

lemma trimVideo_accepted:
  assumes "ffmpegReady s" and "truthy (videoSrc s)"
  shows "fst (trimVideo other env s) =
      fst (trimVideo_resume other env s (s\<lparr>error := None, processingProgress := Fin 0\<rparr>))"
    and "snd (trimVideo other env s) =
      FetchFile (videoSrc s) # snd (trimVideo_resume other env s (s\<lparr>error := None, processingProgress := Fin 0\<rparr>))"
  using assms by (simp_all add: trimVideo_def trimVideo_start_def split: prod.splits)

text \<open>
  Claim C4. While \<^verbatim>\<open>ffmpegReady\<close> is false, \<^verbatim>\<open>trimVideo\<close> returns at its guard:
  the state is unchanged and no external call is made.
\<close>

theorem trimVideo_not_ready:
  "\<not> ffmpegReady s \<Longrightarrow> trimVideo other env s = (s, [])"
  by (simp add: trimVideo_def)

theorem trimVideo_not_ready_witness:
  "trimVideo example_other example_env_ok (example_loaded\<lparr>ffmpegReady := False\<rparr>)
     = (example_loaded\<lparr>ffmpegReady := False\<rparr>, [])"
  using trimVideo_not_ready [of "example_loaded\<lparr>ffmpegReady := False\<rparr>" example_other example_env_ok]
  by simp



text \<open>
  Claim C7. When a step of an accepted trim throws (fetching, writing, the engine's
  command, or reading the output), the \<^verbatim>\<open>catch\<close> block stores the error value, the
  artifact reference is what it was before the job, and the guard of \<^verbatim>\<open>trimVideo\<close>
  still passes: a resubmission for which every step succeeds clears the error and stores
  its artifact.
\<close>

theorem trimVideo_failure:
  assumes "ffmpegReady s" and "truthy (videoSrc s)"
    and "fetchFile_result env = None \<or> writeFile_throws env \<or> run_throws env
       \<or> readFile_result env = None"
    and "fetchFile_result env' = Some d'" and "\<not> writeFile_throws env'"
    and "\<not> run_throws env'" and "readFile_result env' = Some out'"
  shows "error (fst (trimVideo other env s)) = Some TrimFailed
     \<and> trimmedSrc (fst (trimVideo other env s)) = trimmedSrc s
     \<and> ffmpegReady (fst (trimVideo other env s))
     \<and> truthy (videoSrc (fst (trimVideo other env s)))
     \<and> error (fst (trimVideo other env' (fst (trimVideo other env s)))) = None
     \<and> trimmedSrc (fst (trimVideo other env' (fst (trimVideo other env s))))
         = Some (createObjectURL_result env')"
proof -
  let ?s0 = "s\<lparr>error := None, processingProgress := Fin 0\<rparr>"
  let ?s1 = "fst (trimVideo other env s)"
  have s1: "?s1 = fst (trimVideo_resume other env s ?s0)"
    using assms(1,2) by (rule trimVideo_accepted)
  have failed: "error ?s1 = Some TrimFailed" "trimmedSrc ?s1 = trimmedSrc s"
    "ffmpegReady ?s1" "truthy (videoSrc ?s1)"
    using trimVideo_resume_failure [OF assms(3), of other s ?s0] assms(1,2)
    by (simp_all add: s1)
  let ?s2 = "?s1\<lparr>error := None, processingProgress := Fin 0\<rparr>"
  have s3: "fst (trimVideo other env' ?s1) = fst (trimVideo_resume other env' ?s1 ?s2)"
    using failed(3,4) by (rule trimVideo_accepted)
  have again: "error (fst (trimVideo other env' ?s1)) = None"
    "trimmedSrc (fst (trimVideo other env' ?s1)) = Some (createObjectURL_result env')"
    using trimVideo_resume_success [OF assms(4-7), of other ?s1 ?s2]
    by (simp_all add: s3)
  show ?thesis using failed again by simp
qed

theorem trimVideo_failure_witness:
  "error (fst (trimVideo example_other example_env_run_fails example_loaded)) = Some TrimFailed
     \<and> trimmedSrc (fst (trimVideo example_other example_env_run_fails example_loaded)) = None
     \<and> ffmpegReady (fst (trimVideo example_other example_env_run_fails example_loaded))
     \<and> truthy (videoSrc (fst (trimVideo example_other example_env_run_fails example_loaded)))
     \<and> error (fst (trimVideo example_other example_env_ok
           (fst (trimVideo example_other example_env_run_fails example_loaded)))) = None
     \<and> trimmedSrc (fst (trimVideo example_other example_env_ok
           (fst (trimVideo example_other example_env_run_fails example_loaded)))) = Some ''blob:2''"
  using trimVideo_failure [of example_loaded example_env_run_fails example_env_ok
      "[0, 0, 0, 32]" "[0, 0, 0, 24]" example_other]
  by (simp add: example_loaded_def initial_state_def example_env_run_fails_def example_env_ok_def)

text \<open>
  Claim C10. An accepted trim first sets the error to \<^verbatim>\<open>null\<close> and the progress to 0
  and runs its \<^verbatim>\<open>try\<close> block from there; when a step throws, the artifact reference
  of an earlier successful trim is unchanged, so the download link of the old artifact
  stays rendered next to the alert of the new error.
\<close>

theorem trimVideo_clears_and_keeps_artifact:
  assumes "ffmpegReady s" and "truthy (videoSrc s)"
    and "fetchFile_result env = None \<or> writeFile_throws env \<or> run_throws env
       \<or> readFile_result env = None"
    and "download_shown s"
  shows "error (fst (trimVideo_start s)) = None
     \<and> processingProgress (fst (trimVideo_start s)) = Fin 0
     \<and> fst (trimVideo other env s) = fst (trimVideo_resume other env s (fst (trimVideo_start s)))
     \<and> trimmedSrc (fst (trimVideo other env s)) = trimmedSrc s
     \<and> error (fst (trimVideo other env s)) = Some TrimFailed
     \<and> download_shown (fst (trimVideo other env s))
     \<and> alert_shown (fst (trimVideo other env s))"
proof -
  let ?s0 = "s\<lparr>error := None, processingProgress := Fin 0\<rparr>"
  have start: "fst (trimVideo_start s) = ?s0" by (simp add: trimVideo_start_def)
  have s1: "fst (trimVideo other env s) = fst (trimVideo_resume other env s ?s0)"
    using assms(1,2) by (rule trimVideo_accepted)
  have failed: "error (fst (trimVideo other env s)) = Some TrimFailed"
    "trimmedSrc (fst (trimVideo other env s)) = trimmedSrc s"
    using trimVideo_resume_failure [OF assms(3), of other s ?s0] by (simp_all add: s1)
  have shown: "download_shown (fst (trimVideo other env s))" "alert_shown (fst (trimVideo other env s))"
    using failed assms(4) by (simp_all add: download_shown_def alert_shown_def)
  show ?thesis
    using failed shown s1 by (simp add: start)
qed

theorem trimVideo_clears_and_keeps_artifact_witness:
  "error (fst (trimVideo_start example_trimmed)) = None
     \<and> processingProgress (fst (trimVideo_start example_trimmed)) = Fin 0
     \<and> fst (trimVideo example_other example_env_run_fails example_trimmed)
         = fst (trimVideo_resume example_other example_env_run_fails example_trimmed
             (fst (trimVideo_start example_trimmed)))
     \<and> trimmedSrc (fst (trimVideo example_other example_env_run_fails example_trimmed))
         = trimmedSrc example_trimmed
     \<and> error (fst (trimVideo example_other example_env_run_fails example_trimmed)) = Some TrimFailed
     \<and> download_shown (fst (trimVideo example_other example_env_run_fails example_trimmed))
     \<and> alert_shown (fst (trimVideo example_other example_env_run_fails example_trimmed))"
  by (rule trimVideo_clears_and_keeps_artifact)
    (simp_all add: example_trimmed_def example_loaded_def initial_state_def
      example_env_run_fails_def download_shown_def)

subsection \<open>Overlapping trims\<close>

text \<open>A click and its completion with nothing in between are one call of \<^verbatim>\<open>trimVideo\<close>.\<close>

lemma session_single_job:
  assumes "ffmpegReady (app ss)" and "truthy (videoSrc (app ss))" and "in_flight ss = []"
  shows "app (settle_trim other env 0 (click_trim ss)) = fst (trimVideo other env (app ss))"
    and "calls (settle_trim other env 0 (click_trim ss)) = calls ss @ snd (trimVideo other env (app ss))"
    and "in_flight (settle_trim other env 0 (click_trim ss)) = []"
  using assms
  by (simp_all add: settle_trim_def click_trim_def trimVideo_def trimVideo_start_def
      split: prod.splits)

text \<open>
  Claim C8, as the code has it. \<^verbatim>\<open>trimVideo\<close> keeps no record of a running job: a
  click is rejected only while the engine is not ready or no source is loaded. With both
  present it is accepted however many calls are in flight: it resets error and progress,
  calls \<^verbatim>\<open>fetchFile\<close> and adds one more call in flight.
\<close>

theorem click_trim_accepts_while_running:
  assumes "ffmpegReady (app ss)" and "truthy (videoSrc (app ss))"
  shows "click_trim ss =
      ss\<lparr>app := (app ss)\<lparr>error := None, processingProgress := Fin 0\<rparr>,
         in_flight := in_flight ss @ [app ss],
         calls := calls ss @ [FetchFile (videoSrc (app ss))]\<rparr>
     \<and> length (in_flight (click_trim ss)) = length (in_flight ss) + 1"
  using assms by (simp add: click_trim_def trimVideo_start_def)

theorem click_trim_accepts_while_running_witness:
  "click_trim (click_trim example_session) =
      (click_trim example_session)
        \<lparr>app := (app (click_trim example_session))\<lparr>error := None, processingProgress := Fin 0\<rparr>,
         in_flight := in_flight (click_trim example_session) @ [app (click_trim example_session)],
         calls := calls (click_trim example_session) @ [FetchFile (Some ''blob:1'')]\<rparr>
     \<and> length (in_flight (click_trim (click_trim example_session))) = 1 + 1"
  using click_trim_accepts_while_running [of "click_trim example_session"]
  by (simp add: click_trim_def trimVideo_start_def example_session_def example_loaded_def
      initial_state_def)

text \<open>
  The claim as stated fails: from the loaded state a first click puts one job in
  flight, a second click before it finishes is not rejected and puts a second one in
  flight, and both go on to call \<^verbatim>\<open>ffmpeg.run\<close>.
\<close>

theorem second_submit_not_rejected:
  "length (in_flight (click_trim example_session)) = 1
   \<and> click_trim (click_trim example_session) \<noteq> click_trim example_session
   \<and> length (in_flight (click_trim (click_trim example_session))) = 2
   \<and> calls (click_trim (click_trim example_session))
       = [FetchFile (Some ''blob:1''), FetchFile (Some ''blob:1'')]
   \<and> calls (settle_trim example_other example_env_ok 0
         (settle_trim example_other example_env_ok 0 (click_trim (click_trim example_session))))
       = [FetchFile (Some ''blob:1''), FetchFile (Some ''blob:1''),
          FS_writeFile ''input.mp4'' [0, 0, 0, 32],
          Run [''-ss'', ''0'', ''-i'', ''input.mp4'', ''-t'', ''5'', ''-c'', ''copy'', ''output.mp4''],
          FS_readFile ''output.mp4'',
          FS_writeFile ''input.mp4'' [0, 0, 0, 32],
          Run [''-ss'', ''0'', ''-i'', ''input.mp4'', ''-t'', ''5'', ''-c'', ''copy'', ''output.mp4''],
          FS_readFile ''output.mp4'']"
  by (simp add: click_trim_def settle_trim_def trimVideo_start_def trimVideo_resume_def
      trimVideo_try_def trim_args_def Let_def example_session_def example_loaded_def
      initial_state_def example_env_ok_def Number_toString_def decimal.simps digit_char_def)

end
